theory Spec2Isabelle
  imports Complex_Main
begin

section \<open>The document the page is rendered into\<close>

text \<open>
  The resources page (\<^verbatim>\<open>src/app/(pages)/resources/page.tsx\<close>) reads three things of the
  DOM: the list of \<^verbatim>\<open>div[data-section]\<close> elements, the element that carries a given id, and
  the \<^verbatim>\<open>offsetTop\<close> of an element. An element is a node reference; the markup (tag name and
  attributes) is fixed once the page is rendered (nothing in the source changes it, and the
  source says so itself: "sections are constant"), while the layout, that is the
  \<^verbatim>\<open>offsetTop\<close> of every node, is read again at each event.

  Which sections the document holds comes from \<^verbatim>\<open>@/content/resources.md\<close>, which is not
  part of the source; the document is therefore a parameter.
\<close>

type_synonym node = nat

record element =
  tagName :: string
  attr_id :: "string option"            \<comment> \<open>\<^verbatim>\<open>getAttribute("id")\<close>, \<open>None\<close> is \<^verbatim>\<open>null\<close>\<close>
  attr_data_section :: "string option"  \<comment> \<open>\<^verbatim>\<open>getAttribute("data-section")\<close>\<close>

record document =
  nodes :: "node list"                  \<comment> \<open>the elements in tree order\<close>
  element_at :: "node \<Rightarrow> element"

type_synonym layout = "node \<Rightarrow> int"     \<comment> \<open>\<^verbatim>\<open>offsetTop\<close> of each element\<close>

text \<open>\<^verbatim>\<open>document.querySelectorAll("div[data-section]")\<close>: a static list, in tree order.\<close>

definition querySelectorAll_sections :: "document \<Rightarrow> node list" where
  "querySelectorAll_sections d =
     filter (\<lambda>n. tagName (element_at d n) = ''div'' \<and> attr_data_section (element_at d n) \<noteq> None)
       (nodes d)"

text \<open>
  \<^verbatim>\<open>document.getElementById(id)\<close>: the first element in tree order whose id is the argument,
  or \<^verbatim>\<open>null\<close>. An empty id attribute gives an element no id, so the empty string finds
  nothing.
\<close>

definition getElementById :: "document \<Rightarrow> string \<Rightarrow> node option" where
  "getElementById d i =
     (if i = [] then None else find (\<lambda>n. attr_id (element_at d n) = Some i) (nodes d))"

section \<open>ResourceItem: the icon\<close>

text \<open>
  The \<^verbatim>\<open>icon\<close> prop of \<^verbatim>\<open>ResourceItemProps\<close> is optional and, when given, one of seven
  names.
\<close>

datatype icon_name = globe | discord | twitter | gitHub | notion | figma | drive

fun icon_key :: "icon_name \<Rightarrow> string" where
  "icon_key globe = ''globe''"
| "icon_key discord = ''discord''"
| "icon_key twitter = ''twitter''"
| "icon_key gitHub = ''gitHub''"
| "icon_key notion = ''notion''"
| "icon_key figma = ''figma''"
| "icon_key drive = ''drive''"

text \<open>
  \<^verbatim>\<open>const Icon = Icons?.[icon as keyof typeof Icons] ?? Icons.globe\<close>, with the default
  \<^verbatim>\<open>icon = "globe"\<close> of the destructured prop (the prop is \<open>None\<close> when it is omitted).
  \<^verbatim>\<open>Icons\<close> is imported from \<^verbatim>\<open>@/components/icons\<close>, which is not part of the source: it
  is a parameter, the record read as a map from its keys, where \<open>None\<close> stands for a key
  that is absent (the lookup is \<^verbatim>\<open>undefined\<close>). The result is \<open>None\<close> when even
  \<^verbatim>\<open>Icons.globe\<close> is \<^verbatim>\<open>undefined\<close>. The binding \<^verbatim>\<open>Icons\<close> itself is an imported
  object, so the \<^verbatim>\<open>?.\<close> never short-circuits.
\<close>

definition ResourceItem_Icon :: "(string \<rightharpoonup> 'c) \<Rightarrow> icon_name option \<Rightarrow> 'c option" where
  "ResourceItem_Icon Icons icon_prop =
     (let icon = (case icon_prop of None \<Rightarrow> globe | Some i \<Rightarrow> i)
      in case Icons (icon_key icon) of Some c \<Rightarrow> Some c | None \<Rightarrow> Icons ''globe'')"

section \<open>ResourceNav: state\<close>

text \<open>
  The labels come from \<^verbatim>\<open>LABELS.RESOURCES_PAGE.NAV\<close> (\<^verbatim>\<open>@/app/labels\<close>, not part of the
  source): a parameter.
\<close>

record nav_labels =
  GET_INVOLVED :: string
  LEARN :: string
  BUILD :: string
  DESIGN :: string

record page =
  doc :: document
  LABELS :: nav_labels

definition SCROLL_OFFSET :: int where
  "SCROLL_OFFSET = 80"

text \<open>
  \<^verbatim>\<open>ID_LABELS_MAPPING\<close> is an object literal; \<^verbatim>\<open>Object.entries\<close> lists its string keys in
  insertion order, so it is an association list.
\<close>

definition ID_LABELS_MAPPING :: "nav_labels \<Rightarrow> (string \<times> string) list" where
  "ID_LABELS_MAPPING L =
     [(''get-involved'', GET_INVOLVED L),
      (''learn'', LEARN L),
      (''build'', BUILD L),
      (''design'', DESIGN L)]"

text \<open>
  A \<^verbatim>\<open>handleScroll\<close> closure: each run of the effect creates a new function object
  (\<open>fn\<close> is its identity) that captures the \<^verbatim>\<open>isManualScroll\<close> of the render it was
  created in.
\<close>

record handler =
  fn :: nat
  captured_isManualScroll :: bool

record scrollToOptions =
  behavior :: string
  top_px :: int

text \<open>
  The state of the component and of the part of the window it touches.
  \<open>activeId\<close> is \<^verbatim>\<open>useState("")\<close>; it is an option because the scroll handler stores
  \<^verbatim>\<open>section.getAttribute("id")\<close>, which is \<^verbatim>\<open>null\<close> for an element without id attribute.
  \<open>effect_deps\<close> and \<open>effect_cleanup\<close> are what React keeps of the last run of the effect:
  its dependency values and the handler its cleanup removes. \<open>timers\<close> are the due times of
  the pending \<^verbatim>\<open>setTimeout\<close> callbacks (all of them \<^verbatim>\<open>() => setIsManualScroll(false)\<close>),
  on a clock in milliseconds. \<open>scrollTo_calls\<close> records the calls of \<^verbatim>\<open>window.scrollTo\<close>.
\<close>

record nav =
  activeId :: "string option"
  isManualScroll :: bool
  sectionsRef :: "node list option"
  scroll_listeners :: "handler list"
  effect_cleanup :: "handler option"
  effect_deps :: "(string option \<times> bool) option"
  next_fn :: nat
  timers :: "nat list"
  clock :: nat
  scrollTo_calls :: "scrollToOptions list"

definition initial :: nav where
  "initial =
     \<lparr>activeId = Some [], isManualScroll = False, sectionsRef = None, scroll_listeners = [],
      effect_cleanup = None, effect_deps = None, next_fn = 0, timers = [], clock = 0,
      scrollTo_calls = []\<rparr>"

text \<open>\<^verbatim>\<open>!activeId\<close>: true for \<^verbatim>\<open>null\<close> and for the empty string.\<close>

definition falsy :: "string option \<Rightarrow> bool" where
  "falsy a = (case a of None \<Rightarrow> True | Some v \<Rightarrow> v = [])"

section \<open>ResourceNav: the effect\<close>

text \<open>
  \<^verbatim>\<open>window.addEventListener("scroll", h)\<close> appends the listener unless the same function is
  registered already; \<^verbatim>\<open>removeEventListener\<close> removes it. Functions are compared by identity.
\<close>

definition addEventListener :: "handler \<Rightarrow> handler list \<Rightarrow> handler list" where
  "addEventListener h ls = (if fn h \<in> set (map fn ls) then ls else ls @ [h])"

definition removeEventListener :: "handler \<Rightarrow> handler list \<Rightarrow> handler list" where
  "removeEventListener h ls = filter (\<lambda>x. fn x \<noteq> fn h) ls"

text \<open>
  The function passed to \<^verbatim>\<open>useEffect\<close>. It fills \<^verbatim>\<open>sectionsRef\<close> once, sets the default
  active id when the rendered one is falsy, creates \<^verbatim>\<open>handleScroll\<close> and registers it; the
  cleanup it returns removes that handler.
\<close>

definition effect_body :: "page \<Rightarrow> nav \<Rightarrow> nav" where
  "effect_body P s =
     (let rendered_activeId = activeId s;
          rendered_isManualScroll = isManualScroll s;
          s1 = (if sectionsRef s = None
                then s\<lparr>sectionsRef := Some (querySelectorAll_sections (doc P))\<rparr> else s);
          s2 = (if falsy rendered_activeId then s1\<lparr>activeId := Some ''get-involved''\<rparr> else s1);
          handleScroll = \<lparr>fn = next_fn s2, captured_isManualScroll = rendered_isManualScroll\<rparr>
      in s2\<lparr>scroll_listeners := addEventListener handleScroll (scroll_listeners s2),
            effect_cleanup := Some handleScroll,
            effect_deps := Some (rendered_activeId, rendered_isManualScroll),
            next_fn := Suc (next_fn s2)\<rparr>)"

definition run_cleanup :: "nav \<Rightarrow> nav" where
  "run_cleanup s =
     (case effect_cleanup s of
        None \<Rightarrow> s
      | Some h \<Rightarrow> s\<lparr>scroll_listeners := removeEventListener h (scroll_listeners s),
                    effect_cleanup := None\<rparr>)"

text \<open>
  React after a render: when the dependencies \<^verbatim>\<open>[activeId, isManualScroll]\<close> differ from
  those of the last run (or there was none), the cleanup of the last run runs and then the
  effect. The effect may set the active id, which renders once more; after that second
  pass nothing changes any more (lemmas \<open>settled_mount\<close> and \<open>flush_stable\<close>).
\<close>

definition render_commit :: "page \<Rightarrow> nav \<Rightarrow> nav" where
  "render_commit P s =
     (if effect_deps s = Some (activeId s, isManualScroll s) then s
      else effect_body P (run_cleanup s))"

definition flush :: "page \<Rightarrow> nav \<Rightarrow> nav" where
  "flush P s = render_commit P (render_commit P s)"

definition mount :: "page \<Rightarrow> nav" where
  "mount P = flush P initial"

section \<open>ResourceNav: the handlers\<close>

text \<open>
  \<^verbatim>\<open>handleScroll\<close>: \<^verbatim>\<open>forEach\<close> visits the sections in order and each section that passes the
  test sets the active id. \<^verbatim>\<open>window.scrollY\<close> is a number that need not be whole.
\<close>

definition handleScroll :: "page \<Rightarrow> handler \<Rightarrow> layout \<Rightarrow> real \<Rightarrow> nav \<Rightarrow> nav" where
  "handleScroll P h offsetTop scrollY s =
     (if captured_isManualScroll h then s
      else case sectionsRef s of
        None \<Rightarrow> s
      | Some sections \<Rightarrow>
          fold (\<lambda>section st.
                  let sectionTop = offsetTop section - SCROLL_OFFSET
                  in if scrollY \<ge> of_int sectionTop \<and> scrollY > 0
                     then st\<lparr>activeId := attr_id (element_at (doc P) section)\<rparr>
                     else st)
            sections s)"

text \<open>A scroll event calls every registered listener, in the order of registration.\<close>

definition dispatch_scroll :: "page \<Rightarrow> layout \<Rightarrow> real \<Rightarrow> nav \<Rightarrow> nav" where
  "dispatch_scroll P offsetTop scrollY s =
     fold (\<lambda>h st. handleScroll P h offsetTop scrollY st) (scroll_listeners s) s"

definition scrollToId :: "page \<Rightarrow> layout \<Rightarrow> string \<Rightarrow> nav \<Rightarrow> nav" where
  "scrollToId P offsetTop i s =
     (let element = getElementById (doc P) i;
          top = (case element of None \<Rightarrow> 0 | Some n \<Rightarrow> offsetTop n);
          s1 = (case element of
                  None \<Rightarrow> s
                | Some n \<Rightarrow>
                    s\<lparr>activeId := Some i,
                      isManualScroll := True,
                      scrollTo_calls := scrollTo_calls s @
                        [\<lparr>behavior = ''smooth'', top_px = top - SCROLL_OFFSET\<rparr>]\<rparr>)
      in s1\<lparr>timers := timers s1 @ [clock s1 + 800]\<rparr>)"

text \<open>
  The clock moves on by \<open>dt\<close> milliseconds and the timeouts that are due fire; each of them
  is \<^verbatim>\<open>setIsManualScroll(false)\<close>.
\<close>

definition advance :: "nat \<Rightarrow> nav \<Rightarrow> nav" where
  "advance dt s =
     (let t = clock s + dt;
          due = filter (\<lambda>x. x \<le> t) (timers s)
      in s\<lparr>clock := t,
           timers := filter (\<lambda>x. \<not> x \<le> t) (timers s),
           isManualScroll := (if due = [] then isManualScroll s else False)\<rparr>)"

section \<open>ResourceNav: what is rendered\<close>

text \<open>
  One \<^verbatim>\<open>li\<close> per entry of \<^verbatim>\<open>ID_LABELS_MAPPING\<close>. \<open>onClick_target\<close> is the argument its click
  handler passes to \<^verbatim>\<open>scrollToId\<close>; \<open>active\<close> says whether the item carries the active
  class names.
\<close>

record nav_item =
  item_key :: string
  data_id :: string
  onClick_target :: string
  item_label :: string
  active :: bool

definition render :: "page \<Rightarrow> nav \<Rightarrow> nav_item list" where
  "render P s =
     map (\<lambda>(i, l). \<lparr>item_key = i, data_id = i, onClick_target = i, item_label = l,
                     active = (Some i = activeId s)\<rparr>)
       (ID_LABELS_MAPPING (LABELS P))"

text \<open>A click on the navigation item that shows id \<open>i\<close>; there is nothing to click otherwise.\<close>

definition click :: "page \<Rightarrow> layout \<Rightarrow> string \<Rightarrow> nav \<Rightarrow> nav" where
  "click P offsetTop i s =
     (case find (\<lambda>it. data_id it = i) (render P s) of
        None \<Rightarrow> s
      | Some it \<Rightarrow> scrollToId P offsetTop (onClick_target it) s)"

section \<open>The page as a machine\<close>

text \<open>
  What happens to the page, one event at a time. The click handler is a React event
  handler: React renders and runs the effect before the click is over. The scroll listener
  (registered on \<^verbatim>\<open>window\<close> itself) and the timeout callbacks run outside React: the state
  they set is rendered by a later task, the event \<open>Render\<close>. Until then the window keeps
  the listener of the last run of the effect, with the \<^verbatim>\<open>isManualScroll\<close> that run captured,
  and scroll events that arrive in between are handled by that listener.
\<close>

datatype event =
  Scroll layout real
| Click string layout
| Advance nat
| Render

fun handle :: "page \<Rightarrow> event \<Rightarrow> nav \<Rightarrow> nav" where
  "handle P (Scroll offsetTop scrollY) s = dispatch_scroll P offsetTop scrollY s"
| "handle P (Click i offsetTop) s = flush P (click P offsetTop i s)"
| "handle P (Advance dt) s = advance dt s"
| "handle P Render s = flush P s"

definition run :: "page \<Rightarrow> event list \<Rightarrow> nav" where
  "run P es = fold (handle P) es (mount P)"

text \<open>The keys of \<^verbatim>\<open>ID_LABELS_MAPPING\<close>.\<close>

definition nav_ids :: "string list" where
  "nav_ids = [''get-involved'', ''learn'', ''build'', ''design'']"

section \<open>Invariants of the machine\<close>

text \<open>
  \<open>wired\<close> holds in every state the page reaches: the section list is the one of the
  document, the window holds exactly the listener of the last run of the effect, which
  captured the \<^verbatim>\<open>isManualScroll\<close> that run was rendered with. \<open>settled\<close> holds once a
  re-render is through: the effect has seen the current state.
\<close>

definition wired :: "page \<Rightarrow> nav \<Rightarrow> bool" where
  "wired P s =
     (sectionsRef s = Some (querySelectorAll_sections (doc P)) \<and>
      (case effect_cleanup s of
         None \<Rightarrow> False
       | Some h \<Rightarrow>
           scroll_listeners s = [h] \<and> fn h < next_fn s \<and>
           (case effect_deps s of
              None \<Rightarrow> False
            | Some (a, m) \<Rightarrow> captured_isManualScroll h = m \<and> \<not> falsy a)))"

definition settled :: "page \<Rightarrow> nav \<Rightarrow> bool" where
  "settled P s = (wired P s \<and> effect_deps s = Some (activeId s, isManualScroll s))"

section \<open>Elements of the page\<close>

text \<open>
  \<^verbatim>\<open>ResourceCard\<close> renders \<^verbatim>\<open><div id={id} data-section={id} ...>\<close>; an attribute whose value is
  \<^verbatim>\<open>undefined\<close> is not rendered.
\<close>

definition ResourceCard :: "string option \<Rightarrow> element" where
  "ResourceCard i = \<lparr>tagName = ''div'', attr_id = i, attr_data_section = i\<rparr>"

subsection \<open>Concrete pages\<close>

definition example_labels :: nav_labels where
  "example_labels =
     \<lparr>GET_INVOLVED = ''Get involved'', LEARN = ''Learn'', BUILD = ''Build'', DESIGN = ''Design''\<rparr>"

definition example_page :: page where
  "example_page =
     \<lparr>doc = \<lparr>nodes = [0, 1, 2, 3],
             element_at = (\<lambda>n. ResourceCard (Some (if n = 0 then ''get-involved''
                                                    else if n = 1 then ''learn''
                                                    else if n = 2 then ''build'' else ''design'')))\<rparr>,
      LABELS = example_labels\<rparr>"

definition example_layout :: layout where
  "example_layout n = 100 + 500 * int n"

text \<open>
  A page whose document also holds elements that are no sections: a \<^verbatim>\<open>div\<close> without
  \<^verbatim>\<open>data-section\<close> before and after the cards, and a \<^verbatim>\<open>span\<close> with \<^verbatim>\<open>data-section\<close>
  between them.
\<close>

definition mixed_page :: page where
  "mixed_page =
     \<lparr>doc = \<lparr>nodes = [0, 1, 2, 3, 4, 5],
             element_at = (\<lambda>n.
               if n = 0 then \<lparr>tagName = ''div'', attr_id = Some ''hero'', attr_data_section = None\<rparr>
               else if n = 1 then ResourceCard (Some ''get-involved'')
               else if n = 2 then ResourceCard (Some ''learn'')
               else if n = 3 then \<lparr>tagName = ''span'', attr_id = Some ''aside'',
                                     attr_data_section = Some ''aside''\<rparr>
               else if n = 4 then ResourceCard (Some ''build'')
               else \<lparr>tagName = ''div'', attr_id = Some ''footer'', attr_data_section = None\<rparr>)\<rparr>,
      LABELS = example_labels\<rparr>"

definition mixed_layout :: layout where
  "mixed_layout n = 200 * int n"

definition faq_page :: page where
  "faq_page =
     \<lparr>doc = \<lparr>nodes = [0, 1],
             element_at = (\<lambda>n. ResourceCard (Some (if n = 0 then ''get-involved'' else ''faq'')))\<rparr>,
      LABELS = example_labels\<rparr>"

section \<open>The effect and the re-render\<close>

lemma effect_body_fields:
  "activeId (effect_body P s) = (if falsy (activeId s) then Some ''get-involved'' else activeId s)"
  "isManualScroll (effect_body P s) = isManualScroll s"
  "sectionsRef (effect_body P s) =
     (if sectionsRef s = None then Some (querySelectorAll_sections (doc P)) else sectionsRef s)"
  "scroll_listeners (effect_body P s) =
     addEventListener \<lparr>fn = next_fn s, captured_isManualScroll = isManualScroll s\<rparr> (scroll_listeners s)"
  "effect_cleanup (effect_body P s) = Some \<lparr>fn = next_fn s, captured_isManualScroll = isManualScroll s\<rparr>"
  "effect_deps (effect_body P s) = Some (activeId s, isManualScroll s)"
  "next_fn (effect_body P s) = Suc (next_fn s)"
  "timers (effect_body P s) = timers s"
  "clock (effect_body P s) = clock s"
  "scrollTo_calls (effect_body P s) = scrollTo_calls s"
  by (simp_all add: effect_body_def Let_def)

lemma run_cleanup_fields:
  "activeId (run_cleanup s) = activeId s"
  "isManualScroll (run_cleanup s) = isManualScroll s"
  "sectionsRef (run_cleanup s) = sectionsRef s"
  "scroll_listeners (run_cleanup s) =
     (case effect_cleanup s of None \<Rightarrow> scroll_listeners s
      | Some h \<Rightarrow> removeEventListener h (scroll_listeners s))"
  "effect_cleanup (run_cleanup s) = None"
  "effect_deps (run_cleanup s) = effect_deps s"
  "next_fn (run_cleanup s) = next_fn s"
  "timers (run_cleanup s) = timers s"
  "clock (run_cleanup s) = clock s"
  "scrollTo_calls (run_cleanup s) = scrollTo_calls s"
  by (simp_all add: run_cleanup_def split: option.split)

text \<open>One run of the effect (cleanup of the last run, then the body) from a state whose
  only listener is the one the pending cleanup removes.\<close>

lemma rerun_effect:
  assumes secs: "sectionsRef s = None \<or> sectionsRef s = Some (querySelectorAll_sections (doc P))"
    and one: "case effect_cleanup s of None \<Rightarrow> scroll_listeners s = []
              | Some h \<Rightarrow> scroll_listeners s = [h]"
  defines "s' \<equiv> effect_body P (run_cleanup s)"
  defines "h' \<equiv> \<lparr>fn = next_fn s, captured_isManualScroll = isManualScroll s\<rparr>"
  shows "sectionsRef s' = Some (querySelectorAll_sections (doc P))"
    and "effect_cleanup s' = Some h'"
    and "scroll_listeners s' = [h']"
    and "next_fn s' = Suc (next_fn s)"
    and "effect_deps s' = Some (activeId s, isManualScroll s)"
    and "isManualScroll s' = isManualScroll s"
    and "activeId s' = (if falsy (activeId s) then Some ''get-involved'' else activeId s)"
proof -
  have "scroll_listeners (run_cleanup s) = []"
    using one by (cases "effect_cleanup s") (simp_all add: run_cleanup_fields removeEventListener_def)
  then show "scroll_listeners s' = [h']"
    by (simp add: s'_def h'_def effect_body_fields run_cleanup_fields addEventListener_def)
  show "sectionsRef s' = Some (querySelectorAll_sections (doc P))"
    using secs by (auto simp: s'_def effect_body_fields run_cleanup_fields)
qed (simp_all add: s'_def h'_def effect_body_fields run_cleanup_fields)

lemma get_involved_truthy: "\<not> falsy (Some ''get-involved'')"
  by (simp add: falsy_def)

lemma settled_effect:
  assumes secs: "sectionsRef s = None \<or> sectionsRef s = Some (querySelectorAll_sections (doc P))"
    and one: "case effect_cleanup s of None \<Rightarrow> scroll_listeners s = []
              | Some h \<Rightarrow> scroll_listeners s = [h]"
    and truthy: "\<not> falsy (activeId s)"
  shows "settled P (effect_body P (run_cleanup s))"
  using rerun_effect [OF secs one] truthy
  by (simp add: settled_def wired_def)

lemma flush_effect_twice:
  assumes secs: "sectionsRef s = None \<or> sectionsRef s = Some (querySelectorAll_sections (doc P))"
    and one: "case effect_cleanup s of None \<Rightarrow> scroll_listeners s = []
              | Some h \<Rightarrow> scroll_listeners s = [h]"
    and stale: "effect_deps s \<noteq> Some (activeId s, isManualScroll s)"
  shows "settled P (flush P s)"
proof (cases "falsy (activeId s)")
  case False
  have st: "settled P (effect_body P (run_cleanup s))"
    using settled_effect [OF secs one False] .
  then have "render_commit P (effect_body P (run_cleanup s)) = effect_body P (run_cleanup s)"
    by (simp add: render_commit_def settled_def)
  with st stale show ?thesis
    by (simp add: flush_def render_commit_def)
next
  case True
  let ?s1 = "effect_body P (run_cleanup s)"
  note r = rerun_effect [OF secs one]
  have a1: "activeId ?s1 = Some ''get-involved''"
    using r(7) True by simp
  have stale1: "effect_deps ?s1 \<noteq> Some (activeId ?s1, isManualScroll ?s1)"
    using r(5) a1 True get_involved_truthy by auto
  have secs1: "sectionsRef ?s1 = None \<or> sectionsRef ?s1 = Some (querySelectorAll_sections (doc P))"
    using r(1) by simp
  have one1: "case effect_cleanup ?s1 of None \<Rightarrow> scroll_listeners ?s1 = []
              | Some h \<Rightarrow> scroll_listeners ?s1 = [h]"
    using r(2,3) by simp
  have "settled P (effect_body P (run_cleanup ?s1))"
    using settled_effect [OF secs1 one1] a1 get_involved_truthy by simp
  with stale stale1 show ?thesis
    by (simp add: flush_def render_commit_def)
qed

lemma settled_mount: "settled P (mount P)"
  unfolding mount_def
  by (rule flush_effect_twice) (simp_all add: initial_def)

lemma flush_settled: "settled P s \<Longrightarrow> flush P s = s"
  by (simp add: settled_def flush_def render_commit_def)

lemma wired_flush:
  assumes "wired P s"
  shows "settled P (flush P s)"
proof (cases "effect_deps s = Some (activeId s, isManualScroll s)")
  case True
  with assms have "settled P s" by (simp add: settled_def)
  then show ?thesis by (simp add: flush_settled)
next
  case False
  from assms obtain h where "effect_cleanup s = Some h" "scroll_listeners s = [h]"
    by (auto simp: wired_def split: option.splits)
  moreover from assms have "sectionsRef s = Some (querySelectorAll_sections (doc P))"
    by (simp add: wired_def)
  ultimately show ?thesis
    using False by (intro flush_effect_twice) simp_all
qed

lemma flush_stable: "wired P s \<Longrightarrow> render_commit P (flush P s) = flush P s"
  using wired_flush [of P s] by (simp add: settled_def render_commit_def)

section \<open>The handlers\<close>

lemma render_commit_fields:
  "isManualScroll (render_commit P s) = isManualScroll s"
  "timers (render_commit P s) = timers s"
  "clock (render_commit P s) = clock s"
  "scrollTo_calls (render_commit P s) = scrollTo_calls s"
  "\<not> falsy (activeId s) \<Longrightarrow> activeId (render_commit P s) = activeId s"
  by (simp_all add: render_commit_def effect_body_fields run_cleanup_fields)

lemma flush_fields:
  "isManualScroll (flush P s) = isManualScroll s"
  "timers (flush P s) = timers s"
  "clock (flush P s) = clock s"
  "scrollTo_calls (flush P s) = scrollTo_calls s"
  "\<not> falsy (activeId s) \<Longrightarrow> activeId (flush P s) = activeId s"
  by (simp_all add: flush_def render_commit_fields)

text \<open>The loop of \<open>handleScroll\<close>: the last section that passes the test wins.\<close>

lemma forEach_sections:
  "fold (\<lambda>section st.
           let sectionTop = offsetTop section - SCROLL_OFFSET
           in if scrollY \<ge> of_int sectionTop \<and> scrollY > 0
              then st\<lparr>activeId := attr_id (element_at d section)\<rparr>
              else st) sections (s :: nav) =
   (if scrollY > 0 \<and> filter (\<lambda>n. real_of_int (offsetTop n) - 80 \<le> scrollY) sections \<noteq> []
    then s\<lparr>activeId :=
           attr_id (element_at d (last (filter (\<lambda>n. real_of_int (offsetTop n) - 80 \<le> scrollY) sections)))\<rparr>
    else s)"
proof -
  define p where "p = (\<lambda>n. real_of_int (offsetTop n) - 80 \<le> scrollY)"
  define F :: "node \<Rightarrow> nav \<Rightarrow> nav" where "F = (\<lambda>section st.
           let sectionTop = offsetTop section - SCROLL_OFFSET
           in if scrollY \<ge> of_int sectionTop \<and> scrollY > 0
              then st\<lparr>activeId := attr_id (element_at d section)\<rparr>
              else st)"
  have F: "F n st = (if p n \<and> scrollY > 0 then st\<lparr>activeId := attr_id (element_at d n)\<rparr> else st)"
    for n st
    by (simp add: F_def p_def SCROLL_OFFSET_def Let_def)
  have "fold F sections s =
     (if scrollY > 0 \<and> filter p sections \<noteq> []
      then s\<lparr>activeId := attr_id (element_at d (last (filter p sections)))\<rparr> else s)"
  proof (induction sections rule: rev_induct)
    case Nil
    show ?case by simp
  next
    case (snoc x xs)
    let ?r = "if scrollY > 0 \<and> filter p xs \<noteq> []
      then s\<lparr>activeId := attr_id (element_at d (last (filter p xs)))\<rparr> else s"
    have "fold F (xs @ [x]) s = F x (fold F xs s)"
      by simp
    also have "\<dots> = F x ?r"
      by (simp only: snoc.IH)
    also have "\<dots> = (if scrollY > 0 \<and> filter p (xs @ [x]) \<noteq> []
      then s\<lparr>activeId := attr_id (element_at d (last (filter p (xs @ [x]))))\<rparr> else s)"
      by (auto simp: F)
    finally show ?case .
  qed
  then show ?thesis
    unfolding F_def p_def .
qed

lemma handleScroll_eq:
  "handleScroll P h offsetTop scrollY s =
     (if captured_isManualScroll h then s
      else case sectionsRef s of
        None \<Rightarrow> s
      | Some sections \<Rightarrow>
          if scrollY > 0 \<and> filter (\<lambda>n. real_of_int (offsetTop n) - 80 \<le> scrollY) sections \<noteq> []
          then s\<lparr>activeId :=
             attr_id (element_at (doc P)
               (last (filter (\<lambda>n. real_of_int (offsetTop n) - 80 \<le> scrollY) sections)))\<rparr>
          else s)"
  unfolding handleScroll_def forEach_sections
  by (simp split: option.split)

lemma dispatch_scroll_one:
  assumes "scroll_listeners s = [h]" and "sectionsRef s = Some sections"
  shows "dispatch_scroll P offsetTop scrollY s =
     (if captured_isManualScroll h then s
      else if scrollY > 0 \<and> filter (\<lambda>n. real_of_int (offsetTop n) - 80 \<le> scrollY) sections \<noteq> []
      then s\<lparr>activeId :=
             attr_id (element_at (doc P)
               (last (filter (\<lambda>n. real_of_int (offsetTop n) - 80 \<le> scrollY) sections)))\<rparr>
      else s)"
  using assms by (simp add: dispatch_scroll_def handleScroll_eq)

lemma wired_listener:
  assumes "wired P s"
  obtains h a where "scroll_listeners s = [h]" and "effect_cleanup s = Some h"
    and "fn h < next_fn s" and "effect_deps s = Some (a, captured_isManualScroll h)"
    and "\<not> falsy a" and "sectionsRef s = Some (querySelectorAll_sections (doc P))"
  using assms by (auto simp: wired_def split: option.splits)

lemma dispatch_scroll_settled:
  assumes "settled P s"
  shows "dispatch_scroll P offsetTop scrollY s =
     (if isManualScroll s then s
      else if scrollY > 0 \<and>
              filter (\<lambda>n. real_of_int (offsetTop n) - 80 \<le> scrollY)
                (querySelectorAll_sections (doc P)) \<noteq> []
      then s\<lparr>activeId :=
             attr_id (element_at (doc P)
               (last (filter (\<lambda>n. real_of_int (offsetTop n) - 80 \<le> scrollY)
                  (querySelectorAll_sections (doc P)))))\<rparr>
      else s)"
proof -
  from assms have "wired P s" and d: "effect_deps s = Some (activeId s, isManualScroll s)"
    by (simp_all add: settled_def)
  then obtain h a where h: "scroll_listeners s = [h]"
      "effect_deps s = Some (a, captured_isManualScroll h)"
      "sectionsRef s = Some (querySelectorAll_sections (doc P))"
    by (auto elim: wired_listener)
  from h(2) d have "captured_isManualScroll h = isManualScroll s"
    by simp
  then show ?thesis
    by (simp add: dispatch_scroll_one [OF h(1) h(3)])
qed

lemma dispatch_scroll_frame:
  assumes "wired P s"
  shows "isManualScroll (dispatch_scroll P offsetTop scrollY s) = isManualScroll s"
    and "timers (dispatch_scroll P offsetTop scrollY s) = timers s"
    and "clock (dispatch_scroll P offsetTop scrollY s) = clock s"
    and "scrollTo_calls (dispatch_scroll P offsetTop scrollY s) = scrollTo_calls s"
    and "sectionsRef (dispatch_scroll P offsetTop scrollY s) = sectionsRef s"
    and "scroll_listeners (dispatch_scroll P offsetTop scrollY s) = scroll_listeners s"
    and "effect_cleanup (dispatch_scroll P offsetTop scrollY s) = effect_cleanup s"
    and "effect_deps (dispatch_scroll P offsetTop scrollY s) = effect_deps s"
    and "next_fn (dispatch_scroll P offsetTop scrollY s) = next_fn s"
proof -
  from assms obtain h where h: "scroll_listeners s = [h]"
      "sectionsRef s = Some (querySelectorAll_sections (doc P))"
    by (auto elim: wired_listener)
  note eq = dispatch_scroll_one [OF h, of P offsetTop scrollY]
  show "isManualScroll (dispatch_scroll P offsetTop scrollY s) = isManualScroll s"
    and "timers (dispatch_scroll P offsetTop scrollY s) = timers s"
    and "clock (dispatch_scroll P offsetTop scrollY s) = clock s"
    and "scrollTo_calls (dispatch_scroll P offsetTop scrollY s) = scrollTo_calls s"
    and "sectionsRef (dispatch_scroll P offsetTop scrollY s) = sectionsRef s"
    and "scroll_listeners (dispatch_scroll P offsetTop scrollY s) = scroll_listeners s"
    and "effect_cleanup (dispatch_scroll P offsetTop scrollY s) = effect_cleanup s"
    and "effect_deps (dispatch_scroll P offsetTop scrollY s) = effect_deps s"
    and "next_fn (dispatch_scroll P offsetTop scrollY s) = next_fn s"
    by (simp_all add: eq)
qed

lemma wired_frame:
  assumes "wired P s"
    and "sectionsRef s' = sectionsRef s" "scroll_listeners s' = scroll_listeners s"
    and "effect_cleanup s' = effect_cleanup s" "effect_deps s' = effect_deps s"
    and "next_fn s' = next_fn s"
  shows "wired P s'"
  using assms by (auto simp: wired_def split: option.splits)

lemma scrollToId_eq:
  "scrollToId P offsetTop i s =
     (case getElementById (doc P) i of
        None \<Rightarrow> s\<lparr>timers := timers s @ [clock s + 800]\<rparr>
      | Some n \<Rightarrow>
          s\<lparr>activeId := Some i, isManualScroll := True,
            scrollTo_calls := scrollTo_calls s @ [\<lparr>behavior = ''smooth'', top_px = offsetTop n - 80\<rparr>],
            timers := timers s @ [clock s + 800]\<rparr>)"
  by (simp add: scrollToId_def SCROLL_OFFSET_def Let_def split: option.split)

lemma nav_ids_keys: "map fst (ID_LABELS_MAPPING L) = nav_ids"
  by (simp add: ID_LABELS_MAPPING_def nav_ids_def)

lemma click_eq:
  "click P offsetTop i s = (if i \<in> set nav_ids then scrollToId P offsetTop i s else s)"
  by (simp add: click_def render_def ID_LABELS_MAPPING_def nav_ids_def)

lemma wired_dispatch_scroll: "wired P s \<Longrightarrow> wired P (dispatch_scroll P offsetTop scrollY s)"
  by (rule wired_frame [of P s]) (simp_all add: dispatch_scroll_frame)

lemma wired_click: "wired P s \<Longrightarrow> wired P (click P offsetTop i s)"
  by (rule wired_frame [of P s]) (simp_all add: click_eq scrollToId_eq split: option.split)

lemma wired_advance: "wired P s \<Longrightarrow> wired P (advance dt s)"
  by (rule wired_frame [of P s]) (simp_all add: advance_def Let_def)

lemma settled_wired: "settled P s \<Longrightarrow> wired P s"
  by (simp add: settled_def)

lemma wired_handle:
  assumes "wired P s"
  shows "wired P (handle P e s)"
proof (cases e)
  case (Scroll offsetTop scrollY)
  then show ?thesis
    using assms by (simp add: wired_dispatch_scroll)
next
  case (Click i offsetTop)
  then show ?thesis
    using assms by (simp add: settled_wired wired_flush wired_click)
next
  case (Advance dt)
  then show ?thesis
    using assms by (simp add: wired_advance)
next
  case Render
  then show ?thesis
    using assms by (simp add: settled_wired wired_flush)
qed

lemma run_snoc: "run P (es @ [e]) = handle P e (run P es)"
  by (simp add: run_def)

lemma wired_run: "wired P (run P es)"
proof (induction es rule: rev_induct)
  case Nil
  show ?case by (simp add: run_def settled_mount settled_wired)
next
  case (snoc e es)
  then show ?case by (simp add: run_snoc wired_handle)
qed

lemma settled_after_render: "settled P (run P (es @ [Render]))"
  by (simp add: run_snoc wired_flush wired_run)

lemma settled_after_click: "settled P (run P (es @ [Click i offsetTop]))"
  by (simp add: run_snoc wired_flush wired_click wired_run)

section \<open>The claims\<close>

lemma example_sections: "querySelectorAll_sections (doc example_page) = [0, 1, 2, 3]"
  by (simp add: querySelectorAll_sections_def example_page_def ResourceCard_def)

lemma mixed_sections: "querySelectorAll_sections (doc mixed_page) = [1, 2, 4]"
  by (simp add: querySelectorAll_sections_def mixed_page_def ResourceCard_def)

lemma mount_fields:
  "activeId (mount P) = Some ''get-involved''"
  "isManualScroll (mount P) = False"
  "timers (mount P) = []"
  "clock (mount P) = 0"
  "scrollTo_calls (mount P) = []"
  by (simp_all add: mount_def flush_fields initial_def)
    (simp add: flush_def render_commit_def effect_body_fields run_cleanup_fields initial_def falsy_def)

lemma example_getElementById:
  "getElementById (doc example_page) ''build'' = Some 2"
  "getElementById (doc example_page) ''learn'' = Some 1"
  "getElementById (doc faq_page) ''learn'' = None"
  by (simp_all add: getElementById_def example_page_def faq_page_def ResourceCard_def)

lemma nav_ids_truthy: "i \<in> set nav_ids \<Longrightarrow> \<not> falsy (Some i)"
  by (auto simp: nav_ids_def falsy_def)

lemma mount_listeners:
  "scroll_listeners (mount P) = [\<lparr>fn = 1, captured_isManualScroll = False\<rparr>]"
  by (simp add: mount_def flush_def render_commit_def effect_body_def run_cleanup_def
      initial_def falsy_def addEventListener_def removeEventListener_def Let_def)

text \<open>
  While the state's \<^verbatim>\<open>isManualScroll\<close> is on, the registered listener has captured it: the
  flag goes on only in a click, which re-runs the effect.
\<close>

lemma manual_captured:
  "isManualScroll (run P es) \<Longrightarrow> \<exists>a. effect_deps (run P es) = Some (a, True)"
proof (induction es rule: rev_induct)
  case Nil
  then show ?case by (simp add: run_def mount_fields)
next
  case (snoc e es)
  show ?case
  proof (cases e)
    case (Scroll offsetTop scrollY)
    with snoc show ?thesis
      by (simp add: run_snoc dispatch_scroll_frame [OF wired_run])
  next
    case (Click i offsetTop)
    with snoc.prems settled_after_click [of P es i offsetTop] show ?thesis
      by (simp add: settled_def)
  next
    case (Advance dt)
    with snoc show ?thesis
      by (simp add: run_snoc advance_def Let_def split: if_splits)
  next
    case Render
    with snoc.prems settled_after_render [of P es] show ?thesis
      by (simp add: settled_def)
  qed
qed

lemma manual_listener:
  assumes "isManualScroll (run P es)" and "h \<in> set (scroll_listeners (run P es))"
  shows "captured_isManualScroll h"
proof -
  obtain h' a where h': "scroll_listeners (run P es) = [h']"
      "effect_deps (run P es) = Some (a, captured_isManualScroll h')"
    using wired_run [of P es] by (auto elim: wired_listener)
  with manual_captured [OF assms(1)] assms(2) show ?thesis
    by auto
qed

text \<open>
  Claim C1, as it is stated, fails: \<^verbatim>\<open>handleScroll\<close> tests the \<^verbatim>\<open>isManualScroll\<close> its closure
  captured, not the state. After a click on learn and the 800 ms timeout manual-scroll mode
  is off, yet until the next re-render the window still holds the listener that captured
  \<^verbatim>\<open>true\<close>: a scroll to 1200, past the section build, leaves learn the active id.
\<close>

theorem scroll_ignored_after_timeout_counterexample:
  "\<not> isManualScroll (run example_page [Click ''learn'' example_layout, Advance 800]) \<and>
   querySelectorAll_sections (doc example_page) = [0, 1, 2, 3] \<and>
   real_of_int (example_layout 2) - 80 \<le> 1200 \<and>
   \<not> real_of_int (example_layout 3) - 80 \<le> 1200 \<and>
   attr_id (element_at (doc example_page) 2) = Some ''build'' \<and>
   activeId (dispatch_scroll example_page example_layout 1200
      (run example_page [Click ''learn'' example_layout, Advance 800])) = Some ''learn''"
proof -
  let ?a = "run example_page [Click ''learn'' example_layout]"
  let ?b = "run example_page [Click ''learn'' example_layout, Advance 800]"
  have r: "?b = advance 800 ?a"
    by (simp add: run_def)
  have r0: "?a = flush example_page (click example_page example_layout ''learn'' (mount example_page))"
    by (simp add: run_def)
  have m0: "isManualScroll ?a" and a0: "activeId ?a = Some ''learn''"
    and t0: "timers ?a = [800]" and c0: "clock ?a = 0"
    by (simp_all add: r0 flush_fields click_eq nav_ids_def scrollToId_eq example_getElementById
        mount_fields falsy_def)
  obtain h where h: "scroll_listeners ?a = [h]"
      "sectionsRef ?a = Some (querySelectorAll_sections (doc example_page))"
    using wired_run [of example_page "[Click ''learn'' example_layout]"]
    by (auto elim: wired_listener)
  have c: "captured_isManualScroll h"
    using manual_listener [OF m0] h(1) by simp
  have "scroll_listeners ?b = [h]" and "sectionsRef ?b = Some (querySelectorAll_sections (doc example_page))"
    by (simp_all add: r advance_def Let_def h)
  then have "dispatch_scroll example_page example_layout 1200 ?b = ?b"
    using c by (simp add: dispatch_scroll_one)
  moreover have "activeId ?b = Some ''learn''" and "\<not> isManualScroll ?b"
    by (simp_all add: r advance_def Let_def a0 t0 c0)
  moreover have "attr_id (element_at (doc example_page) 2) = Some ''build''"
    by (simp add: example_page_def ResourceCard_def)
  ultimately show ?thesis
    by (simp add: example_sections example_layout_def)
qed

text \<open>
  Claim C1, amended. In every state the page reaches, when the \<^verbatim>\<open>isManualScroll\<close> that the
  registered \<^verbatim>\<open>handleScroll\<close> closure captured is false, a scroll event with
  \<^verbatim>\<open>window.scrollY > 0\<close> sets the active id to the id attribute of the last
  \<^verbatim>\<open>div[data-section]\<close> element, in document order, whose \<^verbatim>\<open>offsetTop\<close> minus 80 is at most
  \<^verbatim>\<open>window.scrollY\<close>; when \<^verbatim>\<open>window.scrollY\<close> is not positive or there is no such section,
  the handler changes nothing. After a re-render there is exactly one registered closure and
  the value it captured is the state's \<^verbatim>\<open>isManualScroll\<close>.
\<close>

theorem handleScroll_selects_last_section:
  "(h \<in> set (scroll_listeners (run P es)) \<and> \<not> captured_isManualScroll h \<longrightarrow>
      dispatch_scroll P offsetTop scrollY (run P es) =
        (if scrollY > 0 \<and>
            filter (\<lambda>n. real_of_int (offsetTop n) - 80 \<le> scrollY)
              (filter (\<lambda>n. tagName (element_at (doc P) n) = ''div'' \<and>
                            attr_data_section (element_at (doc P) n) \<noteq> None)
                 (nodes (doc P))) \<noteq> []
         then (run P es)\<lparr>activeId :=
                attr_id (element_at (doc P)
                  (last (filter (\<lambda>n. real_of_int (offsetTop n) - 80 \<le> scrollY)
                     (filter (\<lambda>n. tagName (element_at (doc P) n) = ''div'' \<and>
                                   attr_data_section (element_at (doc P) n) \<noteq> None)
                        (nodes (doc P))))))\<rparr>
         else run P es)) \<and>
   map captured_isManualScroll (scroll_listeners (run P (es @ [Render]))) =
     [isManualScroll (run P (es @ [Render]))]"
proof (intro conjI impI)
  assume a: "h \<in> set (scroll_listeners (run P es)) \<and> \<not> captured_isManualScroll h"
  obtain h' where h': "scroll_listeners (run P es) = [h']"
      "sectionsRef (run P es) = Some (querySelectorAll_sections (doc P))"
    using wired_run [of P es] by (auto elim: wired_listener)
  with a have "\<not> captured_isManualScroll h'"
    by auto
  then show "dispatch_scroll P offsetTop scrollY (run P es) =
        (if scrollY > 0 \<and>
            filter (\<lambda>n. real_of_int (offsetTop n) - 80 \<le> scrollY)
              (filter (\<lambda>n. tagName (element_at (doc P) n) = ''div'' \<and>
                            attr_data_section (element_at (doc P) n) \<noteq> None)
                 (nodes (doc P))) \<noteq> []
         then (run P es)\<lparr>activeId :=
                attr_id (element_at (doc P)
                  (last (filter (\<lambda>n. real_of_int (offsetTop n) - 80 \<le> scrollY)
                     (filter (\<lambda>n. tagName (element_at (doc P) n) = ''div'' \<and>
                                   attr_data_section (element_at (doc P) n) \<noteq> None)
                        (nodes (doc P))))))\<rparr>
         else run P es)"
    unfolding dispatch_scroll_one [OF h'] querySelectorAll_sections_def by simp
next
  let ?r = "run P (es @ [Render])"
  have s: "settled P ?r"
    by (rule settled_after_render)
  obtain h a where "scroll_listeners ?r = [h]"
      "effect_deps ?r = Some (a, captured_isManualScroll h)"
    using settled_wired [OF s] by (auto elim: wired_listener)
  with s show "map captured_isManualScroll (scroll_listeners ?r) = [isManualScroll ?r]"
    by (simp add: settled_def)
qed

theorem handleScroll_selects_last_section_witness:
  "(\<lparr>fn = 1, captured_isManualScroll = False\<rparr> \<in> set (scroll_listeners (run mixed_page [])) \<and>
    \<not> captured_isManualScroll \<lparr>fn = 1, captured_isManualScroll = False\<rparr>) \<and>
   activeId (dispatch_scroll mixed_page mixed_layout 700 (run mixed_page [])) = Some ''learn'' \<and>
   activeId (dispatch_scroll mixed_page mixed_layout 1000 (run mixed_page [])) = Some ''build'' \<and>
   dispatch_scroll mixed_page mixed_layout 10 (run mixed_page []) = run mixed_page [] \<and>
   dispatch_scroll mixed_page mixed_layout 0 (run mixed_page []) = run mixed_page [] \<and>
   map captured_isManualScroll
     (scroll_listeners (run mixed_page [Click ''learn'' mixed_layout, Advance 800, Render])) = [False]"
proof -
  let ?h = "\<lparr>fn = 1, captured_isManualScroll = False\<rparr>"
  have h: "?h \<in> set (scroll_listeners (run mixed_page [])) \<and> \<not> captured_isManualScroll ?h"
    by (simp add: run_def mount_listeners)
  have q: "filter (\<lambda>n. tagName (element_at (doc mixed_page) n) = ''div'' \<and>
                       attr_data_section (element_at (doc mixed_page) n) \<noteq> None)
      (nodes (doc mixed_page)) = [1, 2, 4]"
    using mixed_sections by (simp only: querySelectorAll_sections_def)
  have e: "attr_id (element_at (doc mixed_page) 2) = Some ''learn''"
    "attr_id (element_at (doc mixed_page) 4) = Some ''build''"
    by (simp_all add: mixed_page_def ResourceCard_def)
  note t = handleScroll_selects_last_section
    [where P = mixed_page and es = "[]" and h = ?h and offsetTop = mixed_layout,
      THEN conjunct1, THEN mp, OF h, unfolded q]
  have s700: "activeId (dispatch_scroll mixed_page mixed_layout 700 (run mixed_page [])) = Some ''learn''"
    by (simp add: t [of 700] mixed_layout_def e)
  have s1000: "activeId (dispatch_scroll mixed_page mixed_layout 1000 (run mixed_page [])) = Some ''build''"
    by (simp add: t [of 1000] mixed_layout_def e)
  have s10: "dispatch_scroll mixed_page mixed_layout 10 (run mixed_page []) = run mixed_page []"
    by (simp add: t [of 10] mixed_layout_def)
  have s0: "dispatch_scroll mixed_page mixed_layout 0 (run mixed_page []) = run mixed_page []"
    by (simp add: t [of 0])
  have "run mixed_page ([Click ''learn'' mixed_layout, Advance 800] @ [Render]) =
      flush mixed_page (advance 800 (flush mixed_page
        (click mixed_page mixed_layout ''learn'' (mount mixed_page))))"
    by (simp add: run_def)
  then have "\<not> isManualScroll (run mixed_page ([Click ''learn'' mixed_layout, Advance 800] @ [Render]))"
    by (simp add: flush_fields advance_def Let_def click_eq nav_ids_def scrollToId_eq mount_fields
        split: option.split)
  with handleScroll_selects_last_section
    [where P = mixed_page and es = "[Click ''learn'' mixed_layout, Advance 800]", THEN conjunct2]
  have r: "map captured_isManualScroll
     (scroll_listeners (run mixed_page [Click ''learn'' mixed_layout, Advance 800, Render])) = [False]"
    by simp
  from h s700 s1000 s10 s0 r show ?thesis
    by (intro conjI) simp_all
qed

text \<open>
  Claim C3. A click on a navigation item whose id names an element of the document sets the
  active id to that id and calls \<^verbatim>\<open>window.scrollTo\<close> once, with smooth behaviour and with
  \<^verbatim>\<open>top\<close> equal to that element's \<^verbatim>\<open>offsetTop\<close> minus 80; the active id is still that id
  after the re-render.
\<close>

theorem click_scrolls_to_section:
  assumes "i \<in> set [''get-involved'', ''learn'', ''build'', ''design'']"
    and "getElementById (doc P) i = Some n"
  shows "activeId (click P offsetTop i s) = Some i \<and>
         scrollTo_calls (click P offsetTop i s) =
           scrollTo_calls s @ [\<lparr>behavior = ''smooth'', top_px = offsetTop n - 80\<rparr>] \<and>
         activeId (handle P (Click i offsetTop) s) = Some i \<and>
         scrollTo_calls (handle P (Click i offsetTop) s) =
           scrollTo_calls s @ [\<lparr>behavior = ''smooth'', top_px = offsetTop n - 80\<rparr>]"
proof -
  from assms(1) have i: "i \<in> set nav_ids"
    by (simp add: nav_ids_def)
  then have c: "click P offsetTop i s = scrollToId P offsetTop i s"
    by (simp add: click_eq)
  have a: "activeId (click P offsetTop i s) = Some i"
    by (simp add: c scrollToId_eq assms(2))
  with i have "\<not> falsy (activeId (click P offsetTop i s))"
    by (simp add: nav_ids_truthy)
  then have "activeId (handle P (Click i offsetTop) s) = Some i"
    using a by (simp add: flush_fields)
  then show ?thesis
    by (simp add: flush_fields) (simp add: c scrollToId_eq assms(2))
qed

theorem click_scrolls_to_section_witness:
  "''build'' \<in> set [''get-involved'', ''learn'', ''build'', ''design''] \<and>
   getElementById (doc example_page) ''build'' = Some 2 \<and>
   activeId (click example_page example_layout ''build'' (mount example_page)) = Some ''build'' \<and>
   scrollTo_calls (click example_page example_layout ''build'' (mount example_page)) =
     [\<lparr>behavior = ''smooth'', top_px = 1020\<rparr>]"
proof -
  have m: "''build'' \<in> set [''get-involved'', ''learn'', ''build'', ''design'']"
    by simp
  show ?thesis
    using click_scrolls_to_section [OF m example_getElementById(1),
        where offsetTop = example_layout and s = "mount example_page"]
    by (simp add: example_getElementById mount_fields example_layout_def)
qed

text \<open>
  Claim C4. Whatever the state, the navigation renders exactly four items, in the order
  get-involved, learn, build, design; ids and labels are the entries of
  \<^verbatim>\<open>ID_LABELS_MAPPING\<close>, the click handler of each item passes that item's id to
  \<^verbatim>\<open>scrollToId\<close>, and a click on the item is that call.
\<close>

theorem nav_renders_four_items:
  "length (render P s) = 4 \<and>
   map data_id (render P s) = [''get-involved'', ''learn'', ''build'', ''design''] \<and>
   map (\<lambda>it. (data_id it, item_label it)) (render P s) = ID_LABELS_MAPPING (LABELS P) \<and>
   map item_key (render P s) = map data_id (render P s) \<and>
   map onClick_target (render P s) = map data_id (render P s) \<and>
   map (\<lambda>it. click P offsetTop (data_id it) s) (render P s) =
     map (\<lambda>it. scrollToId P offsetTop (data_id it) s) (render P s)"
  by (simp add: render_def ID_LABELS_MAPPING_def click_eq nav_ids_def)

text \<open>
  Claim C7. The state starts with the empty string as active id; the effect, run with the
  empty string as active id, sets it to get-involved; so after the mount the active id is
  get-involved and the first navigation item, and no other, is highlighted.
\<close>

theorem default_active_section:
  "activeId initial = Some [] \<and>
   activeId (effect_body P (s\<lparr>activeId := Some []\<rparr>)) = Some ''get-involved'' \<and>
   activeId (mount P) = Some ''get-involved'' \<and>
   map active (render P (mount P)) = [True, False, False, False]"
  by (simp add: initial_def effect_body_fields falsy_def mount_fields render_def
      ID_LABELS_MAPPING_def)

text \<open>
  Claim C8. When the icon prop is omitted, or names no key of \<^verbatim>\<open>Icons\<close>, the icon of a
  \<^verbatim>\<open>ResourceItem\<close> is \<^verbatim>\<open>Icons.globe\<close>; otherwise it is the icon the prop names.
\<close>

theorem icon_fallback:
  "ResourceItem_Icon Icons None = Icons ''globe'' \<and>
   (Icons (icon_key i) = None \<longrightarrow> ResourceItem_Icon Icons (Some i) = Icons ''globe'') \<and>
   (Icons (icon_key i) = Some c \<longrightarrow> ResourceItem_Icon Icons (Some i) = Some c)"
  by (simp add: ResourceItem_Icon_def split: option.split)

theorem icon_fallback_witness:
  "[''globe'' \<mapsto> (0::nat), ''discord'' \<mapsto> 1] (icon_key figma) = None \<and>
   ResourceItem_Icon [''globe'' \<mapsto> (0::nat), ''discord'' \<mapsto> 1] (Some figma) = Some 0 \<and>
   [''globe'' \<mapsto> (0::nat), ''discord'' \<mapsto> 1] (icon_key discord) = Some 1 \<and>
   ResourceItem_Icon [''globe'' \<mapsto> (0::nat), ''discord'' \<mapsto> 1] (Some discord) = Some 1 \<and>
   ResourceItem_Icon [''globe'' \<mapsto> (0::nat), ''discord'' \<mapsto> 1] None = Some 0"
  using icon_fallback [of "[''globe'' \<mapsto> (0::nat), ''discord'' \<mapsto> 1]" figma]
    icon_fallback [of "[''globe'' \<mapsto> (0::nat), ''discord'' \<mapsto> 1]" discord 1]
  by simp

text \<open>
  Claim C9. For an id that no element of the document carries, \<^verbatim>\<open>scrollToId\<close> only adds the
  800 ms timeout: the active id, the flag \<^verbatim>\<open>isManualScroll\<close> and the calls of
  \<^verbatim>\<open>window.scrollTo\<close> stay as they are. Once 800 ms or more have passed, that timeout has
  fired and \<^verbatim>\<open>isManualScroll\<close> is false.
\<close>

theorem missing_target_click:
  assumes "getElementById (doc P) i = None"
  shows "scrollToId P offsetTop i s = s\<lparr>timers := timers s @ [clock s + 800]\<rparr> \<and>
         (800 \<le> dt \<longrightarrow> \<not> isManualScroll (advance dt (scrollToId P offsetTop i s)))"
  using assms by (simp add: scrollToId_eq advance_def Let_def)

theorem missing_target_click_witness:
  "getElementById (doc faq_page) ''learn'' = None \<and> (800::nat) \<le> 800 \<and>
   scrollToId faq_page example_layout ''learn'' (mount faq_page) =
     (mount faq_page)\<lparr>timers := [800]\<rparr> \<and>
   \<not> isManualScroll (advance 800 (scrollToId faq_page example_layout ''learn'' (mount faq_page)))"
proof -
  note t = missing_target_click [OF example_getElementById(3),
      where offsetTop = example_layout and s = "mount faq_page" and dt = 800]
  from t [THEN conjunct1] have a: "scrollToId faq_page example_layout ''learn'' (mount faq_page) =
      (mount faq_page)\<lparr>timers := [800]\<rparr>"
    by (simp add: mount_fields)
  from t [THEN conjunct2] have b:
    "\<not> isManualScroll (advance 800 (scrollToId faq_page example_layout ''learn'' (mount faq_page)))"
    by simp
  show ?thesis
    by (intro conjI) (rule example_getElementById(3), simp, rule a, rule b)
qed







lemma nav_id_active:
  assumes "activeId s \<in> Some ` set nav_ids"
  shows "length (filter active (render P s)) = 1"
proof -
  from assms obtain i where i: "activeId s = Some i" "i \<in> set nav_ids"
    by auto
  from i(2) consider "i = ''get-involved''" | "i = ''learn''" | "i = ''build''" | "i = ''design''"
    by (auto simp: nav_ids_def)
  then show ?thesis
    by cases (simp_all add: i(1) render_def ID_LABELS_MAPPING_def)
qed

lemma last_filter_in: "filter p xs \<noteq> [] \<Longrightarrow> last (filter p xs) \<in> set xs"
  using last_in_set [of "filter p xs"] by auto

text \<open>
  Claim C5, as it is stated, fails: nothing in \<^verbatim>\<open>handleScroll\<close> compares the id it stores with
  the keys of \<^verbatim>\<open>ID_LABELS_MAPPING\<close>. On a page that has a section with another id, here
  \<^verbatim>\<open>faq\<close>, scrolling past that section makes \<^verbatim>\<open>faq\<close> the active id and no navigation item
  is highlighted.
\<close>

theorem active_id_outside_nav_counterexample:
  "activeId (run faq_page [Scroll example_layout 700]) = Some ''faq'' \<and>
   activeId (run faq_page [Scroll example_layout 700])
     \<notin> Some ` set [''get-involved'', ''learn'', ''build'', ''design''] \<and>
   filter active (render faq_page (run faq_page [Scroll example_layout 700])) = []"
proof -
  have q: "querySelectorAll_sections (doc faq_page) = [0, 1]"
    by (simp add: querySelectorAll_sections_def faq_page_def ResourceCard_def)
  have e: "attr_id (element_at (doc faq_page) (Suc 0)) = Some ''faq''"
    by (simp add: faq_page_def ResourceCard_def)
  have "run faq_page [Scroll example_layout 700] =
      dispatch_scroll faq_page example_layout 700 (mount faq_page)"
    by (simp add: run_def)
  moreover have "activeId (dispatch_scroll faq_page example_layout 700 (mount faq_page)) = Some ''faq''"
    by (simp add: dispatch_scroll_settled [OF settled_mount] q example_layout_def e mount_fields)
  ultimately have a: "activeId (run faq_page [Scroll example_layout 700]) = Some ''faq''"
    by simp
  then show ?thesis
    by (simp add: render_def ID_LABELS_MAPPING_def)
qed

text \<open>
  Claim C5, amended. On a page where every \<^verbatim>\<open>div[data-section]\<close> element has one of the four
  ids get-involved, learn, build, design as its id attribute, the active id is one of these
  four in every state reached after the mount, and exactly one navigation item is
  highlighted.
\<close>

theorem active_id_is_nav_id:
  assumes "\<forall>n \<in> set (querySelectorAll_sections (doc P)).
      attr_id (element_at (doc P) n) \<in> Some ` set [''get-involved'', ''learn'', ''build'', ''design'']"
  shows "activeId (run P es) \<in> Some ` set [''get-involved'', ''learn'', ''build'', ''design''] \<and>
         length (filter active (render P (run P es))) = 1"
proof -
  from assms have secs: "attr_id (element_at (doc P) n) \<in> Some ` set nav_ids"
    if "n \<in> set (querySelectorAll_sections (doc P))" for n
    using that by (simp add: nav_ids_def)
  have keep: "activeId (flush P s) \<in> Some ` set nav_ids" if "activeId s \<in> Some ` set nav_ids" for s
  proof -
    from that have "\<not> falsy (activeId s)"
      by (auto simp: nav_ids_truthy)
    with that show ?thesis
      by (simp add: flush_fields)
  qed
  have "activeId (run P es) \<in> Some ` set nav_ids"
  proof (induction es rule: rev_induct)
    case Nil
    show ?case by (simp add: run_def mount_fields nav_ids_def)
  next
    case (snoc e es)
    show ?case
    proof (cases e)
      case (Scroll offsetTop scrollY)
      obtain h where h: "scroll_listeners (run P es) = [h]"
          "sectionsRef (run P es) = Some (querySelectorAll_sections (doc P))"
        using wired_run [of P es] by (auto elim: wired_listener)
      have "activeId (dispatch_scroll P offsetTop scrollY (run P es)) \<in> Some ` set nav_ids"
        using snoc secs [OF last_filter_in]
        by (simp add: dispatch_scroll_one [OF h])
      then show ?thesis
        by (simp add: Scroll run_snoc)
    next
      case (Click i offsetTop)
      have "activeId (click P offsetTop i (run P es)) \<in> Some ` set nav_ids"
        using snoc by (simp add: click_eq scrollToId_eq split: option.split)
      then show ?thesis
        by (simp add: Click run_snoc keep)
    next
      case (Advance dt)
      show ?thesis
        using snoc by (simp add: Advance run_snoc advance_def Let_def)
    next
      case Render
      show ?thesis
        using snoc by (simp add: Render run_snoc keep)
    qed
  qed
  then show ?thesis
    using nav_id_active [of "run P es" P] by (simp add: nav_ids_def)
qed

theorem active_id_is_nav_id_witness:
  "map (\<lambda>n. attr_id (element_at (doc example_page) n)) (querySelectorAll_sections (doc example_page)) =
     [Some ''get-involved'', Some ''learn'', Some ''build'', Some ''design''] \<and>
   activeId (run example_page
       [Scroll example_layout 700, Click ''design'' example_layout, Advance 800,
        Scroll example_layout 1200])
     \<in> Some ` set [''get-involved'', ''learn'', ''build'', ''design''] \<and>
   length (filter active (render example_page (run example_page
       [Scroll example_layout 700, Click ''design'' example_layout, Advance 800,
        Scroll example_layout 1200]))) = 1"
proof -
  have m: "map (\<lambda>n. attr_id (element_at (doc example_page) n))
      (querySelectorAll_sections (doc example_page)) =
     [Some ''get-involved'', Some ''learn'', Some ''build'', Some ''design'']"
    by (simp add: example_sections) (simp add: example_page_def ResourceCard_def)
  have h: "\<forall>n \<in> set (querySelectorAll_sections (doc example_page)).
      attr_id (element_at (doc example_page) n)
        \<in> Some ` set [''get-involved'', ''learn'', ''build'', ''design'']"
    by (simp add: example_sections) (simp add: example_page_def ResourceCard_def)
  show ?thesis
    using m active_id_is_nav_id [OF h] by blast
qed

lemma example_mount_listeners:
  "scroll_listeners (mount example_page) = [\<lparr>fn = 1, captured_isManualScroll = False\<rparr>]"
  "next_fn (mount example_page) = 2"
  "isManualScroll (mount example_page) = False"
  by (simp_all add: mount_def flush_def render_commit_def effect_body_def run_cleanup_def
      initial_def falsy_def addEventListener_def removeEventListener_def Let_def)

text \<open>
  Claim C6. In every state the page reaches, the window holds exactly one scroll listener of
  the component, and it is younger than the next function the component will create. From a
  state in which no listener is the function about to be created, one run of the effect
  appends exactly one listener, its \<^verbatim>\<open>handleScroll\<close>; the cleanup that run returns removes
  exactly that listener, which gives back the listeners there were before.
\<close>

theorem effect_registers_one_listener:
  "length (scroll_listeners (run P es)) = 1 \<and>
   (\<forall>x \<in> set (scroll_listeners (run P es)). fn x < next_fn (run P es)) \<and>
   ((\<forall>x \<in> set (scroll_listeners s). fn x < next_fn s) \<longrightarrow>
      effect_cleanup (effect_body P s) =
        Some \<lparr>fn = next_fn s, captured_isManualScroll = isManualScroll s\<rparr> \<and>
      scroll_listeners (effect_body P s) =
        scroll_listeners s @ [\<lparr>fn = next_fn s, captured_isManualScroll = isManualScroll s\<rparr>] \<and>
      scroll_listeners (run_cleanup (effect_body P s)) = scroll_listeners s)"
proof (intro conjI impI)
  have "wired P (run P es)"
    by (rule wired_run)
  then obtain h where h: "scroll_listeners (run P es) = [h]" "fn h < next_fn (run P es)"
    by (auto simp: wired_def split: option.splits)
  from h show "length (scroll_listeners (run P es)) = 1"
    by simp
  from h show "\<forall>x \<in> set (scroll_listeners (run P es)). fn x < next_fn (run P es)"
    by simp
next
  assume fresh: "\<forall>x \<in> set (scroll_listeners s). fn x < next_fn s"
  let ?h = "\<lparr>fn = next_fn s, captured_isManualScroll = isManualScroll s\<rparr>"
  show c: "effect_cleanup (effect_body P s) = Some ?h"
    by (simp add: effect_body_fields)
  from fresh have "next_fn s \<notin> fn ` set (scroll_listeners s)"
    by auto
  then show l: "scroll_listeners (effect_body P s) = scroll_listeners s @ [?h]"
    by (simp add: effect_body_fields addEventListener_def)
  from fresh have "filter (\<lambda>x. fn x \<noteq> next_fn s) (scroll_listeners s) = scroll_listeners s"
    by (auto simp: filter_id_conv)
  then show "scroll_listeners (run_cleanup (effect_body P s)) = scroll_listeners s"
    by (simp add: run_cleanup_fields c l removeEventListener_def)
qed

theorem effect_registers_one_listener_witness:
  "map fn (scroll_listeners (mount example_page)) = [1] \<and> next_fn (mount example_page) = 2 \<and>
   length (scroll_listeners (run example_page [Scroll example_layout 700])) = 1 \<and>
   scroll_listeners (effect_body example_page (mount example_page)) =
     [\<lparr>fn = 1, captured_isManualScroll = False\<rparr>, \<lparr>fn = 2, captured_isManualScroll = False\<rparr>] \<and>
   scroll_listeners (run_cleanup (effect_body example_page (mount example_page))) =
     [\<lparr>fn = 1, captured_isManualScroll = False\<rparr>]"
proof -
  have h: "\<forall>x \<in> set (scroll_listeners (mount example_page)). fn x < next_fn (mount example_page)"
    by (simp add: example_mount_listeners)
  note t = effect_registers_one_listener
    [where P = example_page and es = "[Scroll example_layout 700]" and s = "mount example_page"]
  from t [THEN conjunct2, THEN conjunct2, THEN mp, OF h] t [THEN conjunct1]
  show ?thesis
    by (simp add: example_mount_listeners)
qed
end
